theory Spec2Isabelle
  imports Main
begin

section \<open>Data model\<close>

text \<open>
  The development embeds the class \<^verbatim>\<open>ObservableOperation\<close> (the second part of
  \<^verbatim>\<open>src/test/ObservableOperation.ts\<close>, from the import of \<^verbatim>\<open>OperationDefinitionNode\<close>
  on) and the interface \<^verbatim>\<open>GraphQLError\<close> of \<^verbatim>\<open>src/src/graphql/errors.ts\<close>.

  JavaScript objects that the class only passes around and compares with \<^verbatim>\<open>===\<close> (the
  variables object, a data object) are values of the type parameters \<open>'v\<close> and \<open>'d\<close>:
  a value stands for the reference, and \<^verbatim>\<open>===\<close> is equality. The graph store's contents
  are a value of \<open>'g\<close>.
\<close>

record GraphQLError =
  message :: string
  locations :: "(int \<times> int) list option"
  path :: "(string + int) list option"

text \<open>A thrown JavaScript error: its message and whether \<^verbatim>\<open>_partialRead\<close> is truthy.\<close>

datatype js_error = Error (err_message: string) (partialRead: bool)

text \<open>\<^verbatim>\<open>operation.operation\<close> of a GraphQL operation definition.\<close>

datatype OperationTypeNode = Query | Mutation | Subscription

record ('v, 'd) OperationState =
  loading :: bool
  executing :: bool
  variables :: 'v
  canonical :: bool
  stale :: bool
  errors :: "GraphQLError list"
  data :: "'d option"

text \<open>
  \<^verbatim>\<open>Partial<OperationState>\<close>: every key may be absent (\<open>None\<close>). \<open>p_data = Some d\<close> is
  the key \<^verbatim>\<open>data\<close> present with the object \<open>d\<close>.
\<close>

record ('v, 'd) PartialState =
  p_loading :: "bool option"
  p_executing :: "bool option"
  p_variables :: "'v option"
  p_canonical :: "bool option"
  p_stale :: "bool option"
  p_errors :: "GraphQLError list option"
  p_data :: "'d option"

definition no_keys :: "('v, 'd) PartialState" where
  "no_keys = \<lparr>p_loading = None, p_executing = None, p_variables = None, p_canonical = None,
     p_stale = None, p_errors = None, p_data = None\<rparr>"

text \<open>The object spread \<^verbatim>\<open>{ ...state, ...partialState }\<close>.\<close>

definition spread :: "('v, 'd) OperationState \<Rightarrow> ('v, 'd) PartialState \<Rightarrow> ('v, 'd) OperationState" where
  "spread s p =
     \<lparr>loading = (case p_loading p of None \<Rightarrow> loading s | Some b \<Rightarrow> b),
      executing = (case p_executing p of None \<Rightarrow> executing s | Some b \<Rightarrow> b),
      variables = (case p_variables p of None \<Rightarrow> variables s | Some v \<Rightarrow> v),
      canonical = (case p_canonical p of None \<Rightarrow> canonical s | Some b \<Rightarrow> b),
      stale = (case p_stale p of None \<Rightarrow> stale s | Some b \<Rightarrow> b),
      errors = (case p_errors p of None \<Rightarrow> errors s | Some es \<Rightarrow> es),
      data = (case p_data p of None \<Rightarrow> data s | Some d \<Rightarrow> Some d)\<rparr>"

text \<open>
  A state object on the heap: its address and its (immutable) contents. The class
  compares state objects with \<^verbatim>\<open>===\<close>, which is equality of addresses.
\<close>

type_synonym ('v, 'd) state_obj = "nat \<times> ('v, 'd) OperationState"

text \<open>
  An observer: its identity and which of the optional callbacks \<^verbatim>\<open>next\<close> and \<^verbatim>\<open>error\<close>
  it has. Observers are passive here: what a callback receives is appended to the
  operation's \<open>delivered\<close> log; a callback that calls back into the operation is the
  delivery followed by that call.
\<close>

record Observer =
  obs_id :: nat
  has_next :: bool
  has_error :: bool

datatype ('v, 'd) delivery = Next "('v, 'd) state_obj" | ErrorEv js_error

text \<open>
  The callbacks handed to \<^verbatim>\<open>setTimeout(..., 0)\<close>: the deferred delivery of
  \<^verbatim>\<open>_updateState\<close> (it captures the observer and \<^verbatim>\<open>nextState\<close>), the priming delivery
  of \<^verbatim>\<open>_onSubscribe\<close> (it captures the observer only) and the deferred delivery of
  \<^verbatim>\<open>_error\<close>.
\<close>

datatype ('v, 'd) task =
    DeliverState Observer "('v, 'd) state_obj"
  | Prime Observer
  | DeliverError Observer js_error

text \<open>What the \<^verbatim>\<open>next\<close> handler of \<^verbatim>\<open>_watch\<close> closes over.\<close>

record ('v, 'd) watch_closure =
  w_variables :: 'v
  w_initialData :: "'d option"

text \<open>An executor result and a graph watch (or read) result.\<close>

record 'd exec_result =
  res_data :: 'd
  res_errors :: "GraphQLError list"

record 'd watch_result =
  wr_data :: 'd
  wr_stale :: bool

text \<open>
  The class \<^verbatim>\<open>ReduxGraphStore\<close> is imported from \<^verbatim>\<open>../graph/store\<close>, which is not among
  the sources, so its two synchronous methods are parameters: \<open>g_write g id d\<close> is
  \<^verbatim>\<open>write({ id, selectionSet, data: d })\<close> on contents \<open>g\<close>, throwing or returning
  the new contents and the projected data; \<open>g_read g id v prev\<close> is
  \<^verbatim>\<open>read({ id, selectionSet, fragments, variables: v, previousData: prev })\<close>, throwing
  or returning a result. The selection set and the fragments are those of the
  operation and never change.
\<close>

record ('g, 'v, 'd) ReduxGraphStore =
  g_write :: "'g \<Rightarrow> OperationTypeNode option \<Rightarrow> 'd \<Rightarrow> js_error + ('g \<times> 'd)"
  g_read :: "'g \<Rightarrow> OperationTypeNode \<Rightarrow> 'v \<Rightarrow> 'd option \<Rightarrow> js_error + 'd watch_result"

text \<open>
  The private fields of the class, the contents of the graph store it holds, the
  allocation counter for state objects, the queue of pending \<^verbatim>\<open>setTimeout\<close> callbacks
  (all with delay 0, so first in, first out) and the log of what observers received.
  \<open>execution = Some v\<close> is a subscription to the executor observable whose handlers
  close over the variables \<open>v\<close> of the \<^verbatim>\<open>execute\<close> call.
\<close>

record ('g, 'v, 'd) ObservableOperation =
  graph :: 'g
  rootID :: "OperationTypeNode option"
  observers :: "Observer list"
  watcher :: "('v, 'd) watch_closure option"
  execution :: "'v option"
  state :: "('v, 'd) state_obj"
  next_addr :: nat
  timers :: "('v, 'd) task list"
  delivered :: "(Observer \<times> ('v, 'd) delivery) list"

text \<open>
  A call either returns or throws; both leave the object in a state, since a throw can
  come after a mutation.
\<close>

datatype 's outcome = Return 's | Throw js_error 's

fun post :: "'s outcome \<Rightarrow> 's" where
  "post (Return s) = s"
| "post (Throw e s) = s"

fun throws :: "'s outcome \<Rightarrow> bool" where
  "throws (Return s) = False"
| "throws (Throw e s) = True"

abbreviation current :: "('g, 'v, 'd) ObservableOperation \<Rightarrow> ('v, 'd) OperationState" where
  "current op \<equiv> snd (state op)"

section \<open>The methods of ObservableOperation\<close>

definition updateState ::
  "('v, 'd) PartialState \<Rightarrow> ('g, 'v, 'd) ObservableOperation \<Rightarrow> ('g, 'v, 'd) ObservableOperation" where
  "updateState partialState op =
     (let nextState = (next_addr op, spread (current op) partialState)
      in op\<lparr>state := nextState,
            next_addr := Suc (next_addr op),
            timers := timers op @ map (\<lambda>observer. DeliverState observer nextState) (observers op)\<rparr>)"

text \<open>\<^verbatim>\<open>_error\<close>.\<close>

definition emit_error ::
  "js_error \<Rightarrow> ('g, 'v, 'd) ObservableOperation \<Rightarrow> ('g, 'v, 'd) ObservableOperation" where
  "emit_error error op =
     op\<lparr>timers := timers op @ map (\<lambda>observer. DeliverError observer error) (observers op)\<rparr>"

text \<open>
  \<^verbatim>\<open>_watch\<close>. Subscribing to \<^verbatim>\<open>graph.watch(...)\<close> returns a subscription, which is the
  closure of its handlers; what the watch emits, at subscription or later, arrives as
  the events \<open>WatchNext\<close> and \<open>WatchError\<close> below. The handlers read the fields of
  the operation only when they run, and neither reads \<^verbatim>\<open>_watcher\<close>, so an emission made
  during the subscription is the same event right after it.
\<close>

definition watch ::
  "('g, 'v, 'd) ObservableOperation \<Rightarrow> ('g, 'v, 'd) ObservableOperation outcome" where
  "watch op =
     (case rootID op of
        None \<Rightarrow> Return op
      | Some rid \<Rightarrow>
          if watcher op \<noteq> None
          then Throw (Error ''Cannot start watching the graph when the graph is currently being watched.'' False) op
          else Return (op\<lparr>watcher :=
                 Some \<lparr>w_variables = variables (current op), w_initialData = data (current op)\<rparr>\<rparr>))"

definition stopWatching ::
  "('g, 'v, 'd) ObservableOperation \<Rightarrow> ('g, 'v, 'd) ObservableOperation" where
  "stopWatching op = (if watcher op \<noteq> None then op\<lparr>watcher := None\<rparr> else op)"

text \<open>The constructor; \<open>initialVariables\<close> is the object the default \<^verbatim>\<open>{}\<close> creates when absent.\<close>

definition new_ObservableOperation ::
  "'g \<Rightarrow> OperationTypeNode \<Rightarrow> 'v \<Rightarrow> ('g, 'v, 'd) ObservableOperation outcome" where
  "new_ObservableOperation g operation initialVariables =
     watch \<lparr>graph = g,
            rootID = (if operation = Mutation then None else Some operation),
            observers = [],
            watcher = None,
            execution = None,
            state = (0, \<lparr>loading = False, executing = False, variables = initialVariables,
                         canonical = False, stale = False, errors = [], data = None\<rparr>),
            next_addr = 1,
            timers = [],
            delivered = []\<rparr>"

definition running_error :: js_error where
  "running_error = Error ''Cannot start a new execution when another execution is currently running.'' False"

text \<open>
  \<^verbatim>\<open>execute\<close>. The executor returns an observable and subscribing to it returns a
  subscription, as its interface says; what the observable emits, at subscription or
  later, arrives as the events \<open>ExecutorNext\<close>, \<open>ExecutorError\<close> and
  \<open>ExecutorComplete\<close> below (no handler reads \<^verbatim>\<open>_execution\<close>).
\<close>

definition execute ::
  "'v option \<Rightarrow> ('g, 'v, 'd) ObservableOperation \<Rightarrow> ('g, 'v, 'd) ObservableOperation outcome" where
  "execute vars op =
     (let v = (case vars of None \<Rightarrow> variables (current op) | Some v' \<Rightarrow> v')
      in if execution op \<noteq> None then Throw running_error op
         else Return ((updateState (no_keys\<lparr>p_loading := Some True, p_executing := Some True\<rparr>) op)
                        \<lparr>execution := Some v\<rparr>))"

text \<open>
  The \<^verbatim>\<open>next\<close> handler of the executor subscription; \<open>v\<close> is the \<^verbatim>\<open>variables\<close> of the
  \<^verbatim>\<open>execute\<close> call that started it.
\<close>

definition execution_next ::
  "('g, 'v, 'd) ReduxGraphStore \<Rightarrow> 'v \<Rightarrow> 'd exec_result \<Rightarrow>
   ('g, 'v, 'd) ObservableOperation \<Rightarrow> ('g, 'v, 'd) ObservableOperation outcome" where
  "execution_next G v result op =
     (let op1 = stopWatching op
      in if length (res_errors result) = 0
         then (case g_write G (graph op1) (rootID op1) (res_data result) of
                 Inl e \<Rightarrow> Throw e op1
               | Inr (g', d) \<Rightarrow>
                   watch (updateState
                            (no_keys\<lparr>p_loading := Some False, p_variables := Some v,
                               p_canonical := Some True, p_stale := Some False,
                               p_errors := Some (res_errors result), p_data := Some d\<rparr>)
                            (op1\<lparr>graph := g'\<rparr>)))
         else Return (updateState
                        (no_keys\<lparr>p_loading := Some False, p_variables := Some v,
                           p_canonical := Some True, p_stale := Some False,
                           p_errors := Some (res_errors result), p_data := Some (res_data result)\<rparr>)
                        op1))"

text \<open>The \<^verbatim>\<open>error\<close> and \<^verbatim>\<open>complete\<close> handlers of the executor subscription.\<close>

definition execution_error ::
  "js_error \<Rightarrow> ('g, 'v, 'd) ObservableOperation \<Rightarrow> ('g, 'v, 'd) ObservableOperation" where
  "execution_error error op = emit_error error op"

definition execution_complete ::
  "('g, 'v, 'd) ObservableOperation \<Rightarrow> ('g, 'v, 'd) ObservableOperation" where
  "execution_complete op =
     updateState (no_keys\<lparr>p_loading := Some False, p_executing := Some False\<rparr>) op"

definition stopExecuting ::
  "('g, 'v, 'd) ObservableOperation \<Rightarrow> ('g, 'v, 'd) ObservableOperation" where
  "stopExecuting op =
     (if execution op \<noteq> None
      then updateState (no_keys\<lparr>p_loading := Some False, p_executing := Some False\<rparr>)
             (op\<lparr>execution := None\<rparr>)
      else op)"

text \<open>
  \<^verbatim>\<open>maybeExecute\<close>. \<open>maybeExecute_try\<close> is the body of the \<^verbatim>\<open>try\<close> block, the \<^verbatim>\<open>catch\<close>
  clause is in \<open>maybeExecute\<close>.
\<close>

definition maybeExecute_try ::
  "('g, 'v, 'd) ReduxGraphStore \<Rightarrow> OperationTypeNode \<Rightarrow> 'v \<Rightarrow>
   ('g, 'v, 'd) ObservableOperation \<Rightarrow> ('g, 'v, 'd) ObservableOperation outcome" where
  "maybeExecute_try G rid v op =
     (case g_read G (graph op) rid v (data (current op)) of
        Inl e \<Rightarrow> Throw e op
      | Inr result \<Rightarrow>
          watch (stopWatching
            (updateState
               (no_keys\<lparr>p_variables := Some v, p_canonical := Some False,
                  p_stale := Some (wr_stale result), p_data := Some (wr_data result)\<rparr>)
               op)))"

definition maybeExecute ::
  "('g, 'v, 'd) ReduxGraphStore \<Rightarrow> 'v option \<Rightarrow>
   ('g, 'v, 'd) ObservableOperation \<Rightarrow> ('g, 'v, 'd) ObservableOperation outcome" where
  "maybeExecute G vars op =
     (let v = (case vars of None \<Rightarrow> variables (current op) | Some v' \<Rightarrow> v')
      in if execution op \<noteq> None then Throw running_error op
         else (case rootID op of
                 None \<Rightarrow> execute (Some v) op
               | Some rid \<Rightarrow>
                   (case maybeExecute_try G rid v op of
                      Return op' \<Rightarrow> Return op'
                    | Throw error op' \<Rightarrow>
                        if partialRead error then Throw error op'
                        else execute (Some v) op')))"

text \<open>The \<^verbatim>\<open>next\<close> and \<^verbatim>\<open>error\<close> handlers of the graph watch subscription.\<close>

definition watch_next ::
  "('v, 'd) watch_closure \<Rightarrow> 'd watch_result \<Rightarrow>
   ('g, 'v, 'd) ObservableOperation \<Rightarrow> ('g, 'v, 'd) ObservableOperation outcome" where
  "watch_next w result op =
     (if w_variables w \<noteq> variables (current op)
      then Throw (Error ''Operation variables changed without unsubscribing the graph watcher.'' False) op
      else if Some (wr_data result) = w_initialData w \<and> wr_stale result = False
      then Return op
      else Return (updateState
                     (no_keys\<lparr>p_canonical := Some False, p_stale := Some (wr_stale result),
                        p_data := Some (wr_data result)\<rparr>)
                     op))"

definition watch_error ::
  "js_error \<Rightarrow> ('g, 'v, 'd) ObservableOperation \<Rightarrow> ('g, 'v, 'd) ObservableOperation" where
  "watch_error error op = emit_error error op"

text \<open>
  \<^verbatim>\<open>_onSubscribe\<close>, which the base class \<^verbatim>\<open>Observable\<close> calls for each \<^verbatim>\<open>subscribe\<close>, and
  the function it returns (\<open>unsubscribe\<close>): \<^verbatim>\<open>indexOf\<close> and \<^verbatim>\<open>splice(i, 1)\<close> remove the
  first occurrence, if there is one.
\<close>

definition onSubscribe ::
  "Observer \<Rightarrow> ('g, 'v, 'd) ObservableOperation \<Rightarrow> ('g, 'v, 'd) ObservableOperation" where
  "onSubscribe observer op =
     op\<lparr>timers := timers op @ [Prime observer], observers := observers op @ [observer]\<rparr>"

definition unsubscribe ::
  "Observer \<Rightarrow> ('g, 'v, 'd) ObservableOperation \<Rightarrow> ('g, 'v, 'd) ObservableOperation" where
  "unsubscribe observer op = op\<lparr>observers := remove1 observer (observers op)\<rparr>"

section \<open>Deferred deliveries\<close>

definition deliver ::
  "Observer \<Rightarrow> ('v, 'd) delivery \<Rightarrow> ('g, 'v, 'd) ObservableOperation \<Rightarrow> ('g, 'v, 'd) ObservableOperation" where
  "deliver observer d op = op\<lparr>delivered := delivered op @ [(observer, d)]\<rparr>"

text \<open>Running one \<^verbatim>\<open>setTimeout\<close> callback.\<close>

fun run_task ::
  "('v, 'd) task \<Rightarrow> ('g, 'v, 'd) ObservableOperation \<Rightarrow> ('g, 'v, 'd) ObservableOperation" where
  "run_task (DeliverState observer nextState) op =
     (if has_next observer \<and> fst (state op) = fst nextState
      then deliver observer (Next nextState) op else op)"
| "run_task (Prime observer) op =
     (if has_next observer then deliver observer (Next (state op)) op else op)"
| "run_task (DeliverError observer error) op =
     (if has_error observer then deliver observer (ErrorEv error) op else op)"

text \<open>The event loop runs the oldest pending callback.\<close>

definition timeout ::
  "('g, 'v, 'd) ObservableOperation \<Rightarrow> ('g, 'v, 'd) ObservableOperation" where
  "timeout op = (case timers op of [] \<Rightarrow> op | t # ts \<Rightarrow> run_task t (op\<lparr>timers := ts\<rparr>))"

text \<open>
  The event loop runs every pending callback, with no other code in between. A
  callback schedules nothing, so the queue is empty afterwards.
\<close>

fun run_tasks ::
  "('v, 'd) task list \<Rightarrow> ('g, 'v, 'd) ObservableOperation \<Rightarrow> ('g, 'v, 'd) ObservableOperation" where
  "run_tasks [] op = op"
| "run_tasks (t # ts) op = run_tasks ts (run_task t op)"

definition flush ::
  "('g, 'v, 'd) ObservableOperation \<Rightarrow> ('g, 'v, 'd) ObservableOperation" where
  "flush op = run_tasks (timers op) (op\<lparr>timers := []\<rparr>)"

section \<open>The operation as a transition system\<close>

text \<open>
  What can happen to an operation: a call of a public method, a subscription or an
  unsubscription, an emission of the executor observable or of the graph watch, and
  the event loop running a deferred callback. An emission reaches a handler only
  while the subscription exists.
\<close>

datatype ('v, 'd) action =
    Subscribe Observer
  | Unsubscribe Observer
  | Execute "'v option"
  | MaybeExecute "'v option"
  | StopExecuting
  | ExecutorNext "'d exec_result"
  | ExecutorError js_error
  | ExecutorComplete
  | WatchNext "'d watch_result"
  | WatchError js_error
  | Timeout

fun step ::
  "('g, 'v, 'd) ReduxGraphStore \<Rightarrow> ('v, 'd) action \<Rightarrow>
   ('g, 'v, 'd) ObservableOperation \<Rightarrow> ('g, 'v, 'd) ObservableOperation outcome" where
  "step G (Subscribe observer) op = Return (onSubscribe observer op)"
| "step G (Unsubscribe observer) op = Return (unsubscribe observer op)"
| "step G (Execute vars) op = execute vars op"
| "step G (MaybeExecute vars) op = maybeExecute G vars op"
| "step G StopExecuting op = Return (stopExecuting op)"
| "step G (ExecutorNext result) op =
     (case execution op of None \<Rightarrow> Return op | Some v \<Rightarrow> execution_next G v result op)"
| "step G (ExecutorError error) op =
     (case execution op of None \<Rightarrow> Return op | Some v \<Rightarrow> Return (execution_error error op))"
| "step G ExecutorComplete op =
     (case execution op of None \<Rightarrow> Return op | Some v \<Rightarrow> Return (execution_complete op))"
| "step G (WatchNext result) op =
     (case watcher op of None \<Rightarrow> Return op | Some w \<Rightarrow> watch_next w result op)"
| "step G (WatchError error) op =
     (case watcher op of None \<Rightarrow> Return op | Some w \<Rightarrow> Return (watch_error error op))"
| "step G Timeout op = Return (timeout op)"

text \<open>A run of actions; a throw is seen by the caller and the object lives on.\<close>

fun run ::
  "('g, 'v, 'd) ReduxGraphStore \<Rightarrow> ('v, 'd) action list \<Rightarrow>
   ('g, 'v, 'd) ObservableOperation \<Rightarrow> ('g, 'v, 'd) ObservableOperation" where
  "run G [] op = op"
| "run G (a # as) op = run G as (post (step G a op))"

text \<open>The states an operation can be in: after construction and after any run.\<close>

inductive reachable ::
  "('g, 'v, 'd) ReduxGraphStore \<Rightarrow> ('g, 'v, 'd) ObservableOperation \<Rightarrow> bool"
  for G :: "('g, 'v, 'd) ReduxGraphStore" where
  init: "reachable G (post (new_ObservableOperation g operation initialVariables))"
| step: "reachable G op \<Longrightarrow> reachable G (post (step G a op))"

section \<open>Auxiliary definitions\<close>

text \<open>What running a deferred callback hands to its observer, given the state object that is current when it runs.\<close>

fun task_output :: "('v, 'd) state_obj \<Rightarrow> ('v, 'd) task \<Rightarrow> (Observer \<times> ('v, 'd) delivery) list" where
  "task_output st (DeliverState observer nextState) =
     (if has_next observer \<and> fst st = fst nextState then [(observer, Next nextState)] else [])"
| "task_output st (Prime observer) = (if has_next observer then [(observer, Next st)] else [])"
| "task_output st (DeliverError observer error) =
     (if has_error observer then [(observer, ErrorEv error)] else [])"


text \<open>Addresses are allocated once: a pending delivery holds an address below the allocation counter, and if it holds the address of the current state object it holds that object.\<close>

fun pending_ok :: "('v, 'd) state_obj \<Rightarrow> nat \<Rightarrow> ('v, 'd) task \<Rightarrow> bool" where
  "pending_ok st n (DeliverState observer s) = (fst s < n \<and> (if fst s = fst st then s = st else True))"
| "pending_ok st n (Prime observer) = True"
| "pending_ok st n (DeliverError observer error) = True"

definition addr_ok :: "('g, 'v, 'd) ObservableOperation \<Rightarrow> bool" where
  "addr_ok op = (fst (state op) < next_addr op \<and> list_all (pending_ok (state op) (next_addr op)) (timers op))"

text \<open>The graph watcher was started with the variables of the current state.\<close>

definition watcher_ok :: "('g, 'v, 'd) ObservableOperation \<Rightarrow> bool" where
  "watcher_ok op = (case watcher op of None \<Rightarrow> True | Some w \<Rightarrow> w_variables w = variables (current op))"

text \<open>The relation between the two flags of a state: not executing means not loading.\<close>

definition flags_ok :: "('v, 'd) OperationState \<Rightarrow> bool" where
  "flags_ok s = (if executing s then True else \<not> loading s)"

definition flags_ok_task :: "('v, 'd) task \<Rightarrow> bool" where
  "flags_ok_task t = (case t of DeliverState observer s \<Rightarrow> flags_ok (snd s) | _ \<Rightarrow> True)"

definition flags_ok_delivery :: "Observer \<times> ('v, 'd) delivery \<Rightarrow> bool" where
  "flags_ok_delivery od = (case snd od of Next s \<Rightarrow> flags_ok (snd s) | ErrorEv e \<Rightarrow> True)"

definition all_flags_ok :: "('g, 'v, 'd) ObservableOperation \<Rightarrow> bool" where
  "all_flags_ok op = (flags_ok (current op) \<and> list_all flags_ok_task (timers op)
      \<and> list_all flags_ok_delivery (delivered op))"

text \<open>An executor result without errors.\<close>

fun clean_result :: "('v, 'd) action \<Rightarrow> bool" where
  "clean_result (ExecutorNext result) = (res_errors result = [])"
| "clean_result a = False"

text \<open>A call of \<^verbatim>\<open>maybeExecute\<close>.\<close>

fun maybeExecute_call :: "('v, 'd) action \<Rightarrow> bool" where
  "maybeExecute_call (MaybeExecute vars) = True"
| "maybeExecute_call a = False"

text \<open>A small graph store for the examples: its contents are the data objects written so far, a write returns the object it was given, a read returns the last object written and fails with a partial read error on the empty graph.\<close>

definition example_store :: "(nat list, nat, nat) ReduxGraphStore" where
  "example_store =
     \<lparr>g_write = (\<lambda>g rid d. Inr (g @ [d], d)),
      g_read = (\<lambda>g rid v prev.
        case g of [] \<Rightarrow> Inl (Error ''No scalar value found for field 'a'.'' True)
                | d # ds \<Rightarrow> Inr \<lparr>wr_data = last g, wr_stale = False\<rparr>)\<rparr>"

text \<open>A graph store whose methods throw an error that is not a partial read error.\<close>

definition broken_store :: "(nat list, nat, nat) ReduxGraphStore" where
  "broken_store =
     \<lparr>g_write = (\<lambda>g rid d. Inl (Error ''Unexpected.'' False)),
      g_read = (\<lambda>g rid v prev. Inl (Error ''Unexpected.'' False))\<rparr>"

text \<open>An operation observing a query, with initial variables \<open>0\<close>, on the empty graph.\<close>

definition example_op :: "(nat list, nat, nat) ObservableOperation" where
  "example_op = post (new_ObservableOperation [] Query 0)"

text \<open>An observer with both callbacks.\<close>

definition example_observer :: Observer where
  "example_observer = \<lparr>obs_id = 1, has_next = True, has_error = True\<rparr>"

text \<open>The example operation with the observer subscribed and primed.\<close>

definition subscribed_op :: "(nat list, nat, nat) ObservableOperation" where
  "subscribed_op = run example_store [Subscribe example_observer, Timeout] example_op"

text \<open>The subscribed operation after \<^verbatim>\<open>execute()\<close> and the completion of the executor, in one turn.\<close>

definition completed_op :: "(nat list, nat, nat) ObservableOperation" where
  "completed_op = run example_store [Execute None, ExecutorComplete] subscribed_op"

text \<open>The subscribed operation after \<^verbatim>\<open>execute()\<close>, the loading state delivered.\<close>

definition executing_op :: "(nat list, nat, nat) ObservableOperation" where
  "executing_op = run example_store [Execute None, Timeout] subscribed_op"

text \<open>The example operation after \<^verbatim>\<open>execute(7)\<close> and the result \<^verbatim>\<open>{ data: 5, errors: [] }\<close>.\<close>

definition watching_op :: "(nat list, nat, nat) ObservableOperation" where
  "watching_op =
     run example_store [Execute (Some 7), ExecutorNext \<lparr>res_data = 5, res_errors = []\<rparr>] example_op"

text \<open>The state object that \<^verbatim>\<open>execute()\<close> creates on the subscribed operation.\<close>

definition loading_state :: "(nat, nat) state_obj" where
  "loading_state = (1, \<lparr>loading = True, executing = True, variables = 0, canonical = False,
     stale = False, errors = [], data = None\<rparr>)"

text \<open>The example operation after \<^verbatim>\<open>execute(7)\<close>.\<close>

definition requested_op :: "(nat list, nat, nat) ObservableOperation" where
  "requested_op = run example_store [Execute (Some 7)] example_op"

text \<open>The same after the result \<^verbatim>\<open>{ data: 5, errors: [] }\<close> and \<^verbatim>\<open>stopExecuting()\<close>.\<close>

definition stopped_op :: "(nat list, nat, nat) ObservableOperation" where
  "stopped_op =
     run example_store [ExecutorNext \<lparr>res_data = 5, res_errors = []\<rparr>, StopExecuting] requested_op"

text \<open>An executor result with an error.\<close>

definition yikes :: "nat exec_result" where
  "yikes = \<lparr>res_data = 5, res_errors = [\<lparr>message = ''Yikes!'', locations = None, path = None\<rparr>]\<rparr>"

text \<open>An operation observing a query on a graph that already holds the data object \<open>5\<close>.\<close>

definition seeded_op :: "(nat list, nat, nat) ObservableOperation" where
  "seeded_op = post (new_ObservableOperation [5] Query 0)"

text \<open>The same after \<^verbatim>\<open>execute(7)\<close> and a result with an error.\<close>

definition errored_op :: "(nat list, nat, nat) ObservableOperation" where
  "errored_op = run example_store [Execute (Some 7), ExecutorNext yikes] seeded_op"

section \<open>Deferred deliveries: what a run of the queue delivers\<close>

lemma run_task_frame:
  "graph (run_task t op) = graph op" "rootID (run_task t op) = rootID op"
  "observers (run_task t op) = observers op" "watcher (run_task t op) = watcher op"
  "execution (run_task t op) = execution op" "state (run_task t op) = state op"
  "next_addr (run_task t op) = next_addr op" "timers (run_task t op) = timers op"
  by (cases t; simp add: deliver_def)+

lemma run_task_delivered: "delivered (run_task t op) = delivered op @ task_output (state op) t"
  by (cases t) (simp_all add: deliver_def)

lemma run_tasks_state: "state (run_tasks ts op) = state op"
  by (induction ts arbitrary: op) (simp_all add: run_task_frame)

lemma run_tasks_timers: "timers (run_tasks ts op) = timers op"
  by (induction ts arbitrary: op) (simp_all add: run_task_frame)

lemma run_tasks_delivered:
  "delivered (run_tasks ts op) = delivered op @ concat (map (task_output (state op)) ts)"
  by (induction ts arbitrary: op) (simp_all add: run_task_frame run_task_delivered)

lemma flush_delivered:
  "delivered (flush op) = delivered op @ concat (map (task_output (state op)) (timers op))"
  by (simp add: flush_def run_tasks_delivered)

lemma flush_state: "state (flush op) = state op"
  by (simp add: flush_def run_tasks_state)

lemma flush_timers: "timers (flush op) = []"
  by (simp add: flush_def run_tasks_timers)

lemma run_task_timers_update: "run_task t (op\<lparr>timers := ts\<rparr>) = (run_task t op)\<lparr>timers := ts\<rparr>"
  by (cases t) (simp_all add: deliver_def)

lemma run_tasks_is_timeouts:
  "run_tasks ts (op\<lparr>timers := []\<rparr>) = run G (replicate (length ts) Timeout) (op\<lparr>timers := ts\<rparr>)"
proof (induction ts arbitrary: op)
  case Nil
  show ?case by simp
next
  case (Cons t ts)
  have "run G (replicate (length (t # ts)) Timeout) (op\<lparr>timers := t # ts\<rparr>) =
        run G (replicate (length ts) Timeout) ((run_task t op)\<lparr>timers := ts\<rparr>)"
    by (simp add: timeout_def run_task_timers_update)
  also have "\<dots> = run_tasks ts ((run_task t op)\<lparr>timers := []\<rparr>)"
    by (simp only: Cons.IH)
  also have "\<dots> = run_tasks (t # ts) (op\<lparr>timers := []\<rparr>)"
    by (simp add: run_task_timers_update)
  finally show ?case by simp
qed

text \<open>
  Running the whole queue is the event loop running one pending callback after the
  other, as many times as callbacks are pending.
\<close>

lemma flush_is_timeouts: "flush op = run G (replicate (length (timers op)) Timeout) op"
  using run_tasks_is_timeouts [of "timers op" op G] by (simp add: flush_def)




lemma updateState_frame:
  "graph (updateState p op) = graph op" "rootID (updateState p op) = rootID op"
  "observers (updateState p op) = observers op" "watcher (updateState p op) = watcher op"
  "execution (updateState p op) = execution op" "delivered (updateState p op) = delivered op"
  by (simp_all add: updateState_def Let_def)

lemma updateState_state: "state (updateState p op) = (next_addr op, spread (current op) p)"
  by (simp add: updateState_def Let_def)

lemma updateState_next_addr: "next_addr (updateState p op) = Suc (next_addr op)"
  by (simp add: updateState_def Let_def)

lemma updateState_timers:
  "timers (updateState p op) =
     timers op @ map (\<lambda>observer. DeliverState observer (state (updateState p op))) (observers op)"
  by (simp add: updateState_def Let_def)





lemma output_new:
  "concat (map (task_output st) (map (\<lambda>observer. DeliverState observer st) obs)) =
     map (\<lambda>observer. (observer, Next st)) (filter has_next obs)"
  by (induction obs) simp_all




section \<open>Invariants of the reachable states\<close>

lemmas method_defs = onSubscribe_def unsubscribe_def execute_def maybeExecute_def maybeExecute_try_def
        stopExecuting_def execution_next_def execution_error_def execution_complete_def
        watch_next_def watch_error_def timeout_def updateState_def emit_error_def watch_def
        stopWatching_def spread_def no_keys_def Let_def

lemma pending_ok_mono: "pending_ok st n t \<Longrightarrow> fst st < n \<Longrightarrow> pending_ok (n, s') (Suc n) t"
  by (cases t) auto

lemma watcher_ok_step: "watcher_ok op \<Longrightarrow> watcher_ok (post (step G a op))"
  by (cases a)
     (auto simp: watcher_ok_def method_defs run_task_frame
        split: option.splits sum.splits outcome.splits if_splits list.splits)

lemma addr_ok_step: "addr_ok op \<Longrightarrow> addr_ok (post (step G a op))"
  by (cases a)
     (auto simp: addr_ok_def method_defs run_task_frame list_all_iff
        split: option.splits sum.splits outcome.splits if_splits list.splits intro: pending_ok_mono)

lemma all_flags_ok_run_task:
  "all_flags_ok op \<Longrightarrow> flags_ok_task t \<Longrightarrow> all_flags_ok (run_task t op)"
  by (cases t) (auto simp: all_flags_ok_def flags_ok_task_def flags_ok_delivery_def deliver_def)

lemma all_flags_ok_timeout: "all_flags_ok op \<Longrightarrow> all_flags_ok (timeout op)"
proof (cases "timers op")
  case Nil
  assume "all_flags_ok op"
  with Nil show ?thesis by (simp add: timeout_def)
next
  case (Cons t ts)
  assume "all_flags_ok op"
  then have "all_flags_ok (op\<lparr>timers := ts\<rparr>)" and "flags_ok_task t"
    using Cons by (simp_all add: all_flags_ok_def)
  then show ?thesis
    using Cons by (simp add: timeout_def all_flags_ok_run_task)
qed

lemma all_flags_ok_step: "all_flags_ok op \<Longrightarrow> all_flags_ok (post (step G a op))"
proof (cases a)
  case Timeout
  assume "all_flags_ok op"
  with Timeout show ?thesis by (simp add: all_flags_ok_timeout)
qed (auto simp: all_flags_ok_def flags_ok_task_def flags_ok_delivery_def flags_ok_def
        onSubscribe_def unsubscribe_def execute_def maybeExecute_def maybeExecute_try_def
        stopExecuting_def execution_next_def execution_error_def execution_complete_def
        watch_next_def watch_error_def updateState_def emit_error_def watch_def
        stopWatching_def spread_def no_keys_def Let_def list_all_iff
        split: option.splits sum.splits outcome.splits if_splits)

lemma new_cases:
  "post (new_ObservableOperation g k v0) =
     \<lparr>graph = g, rootID = (if k = Mutation then None else Some k), observers = [],
      watcher = (if k = Mutation then None else Some \<lparr>w_variables = v0, w_initialData = None\<rparr>),
      execution = None,
      state = (0, \<lparr>loading = False, executing = False, variables = v0,
                   canonical = False, stale = False, errors = [], data = None\<rparr>),
      next_addr = 1, timers = [], delivered = []\<rparr>"
  by (simp add: new_ObservableOperation_def watch_def)

lemma reachable_all_flags_ok: "reachable G op \<Longrightarrow> all_flags_ok op"
proof (induction rule: reachable.induct)
  case (init g operation initialVariables)
  show ?case by (simp add: new_cases all_flags_ok_def flags_ok_def)
next
  case (step op a)
  then show ?case by (simp only: all_flags_ok_step)
qed

lemma reachable_watcher_ok: "reachable G op \<Longrightarrow> watcher_ok op"
proof (induction rule: reachable.induct)
  case (init g operation initialVariables)
  show ?case by (simp add: new_cases watcher_ok_def)
next
  case (step op a)
  then show ?case by (simp only: watcher_ok_step)
qed

lemma reachable_addr_ok: "reachable G op \<Longrightarrow> addr_ok op"
proof (induction rule: reachable.induct)
  case (init g operation initialVariables)
  show ?case by (simp add: new_cases addr_ok_def)
next
  case (step op a)
  then show ?case by (simp only: addr_ok_step)
qed

lemma reachable_run: "reachable G op \<Longrightarrow> reachable G (run G as op)"
  by (induction as arbitrary: op) (simp_all add: reachable.step)

lemma reachable_example: "reachable G (run G as example_op)"
  unfolding example_op_def by (rule reachable_run) (rule reachable.init)

lemmas eval_defs = example_store_def broken_store_def example_op_def example_observer_def
  new_ObservableOperation_def running_error_def method_defs

lemmas example_defs = subscribed_op_def completed_op_def executing_op_def watching_op_def
  requested_op_def stopped_op_def yikes_def seeded_op_def errored_op_def loading_state_def
  deliver_def flush_def

lemma reachable_examples:
  "reachable example_store example_op" "reachable example_store subscribed_op"
  "reachable example_store completed_op" "reachable example_store executing_op"
  "reachable example_store watching_op"
proof -
  have "reachable example_store (run example_store [] example_op)"
    by (rule reachable_example)
  then show "reachable example_store example_op" by simp
  show sub: "reachable example_store subscribed_op"
    unfolding subscribed_op_def by (rule reachable_example)
  show "reachable example_store completed_op"
    unfolding completed_op_def using sub by (rule reachable_run)
  show "reachable example_store executing_op"
    unfolding executing_op_def using sub by (rule reachable_run)
  show "reachable example_store watching_op"
    unfolding watching_op_def by (rule reachable_example)
qed





lemma stopped_step:
  "watcher op = None \<Longrightarrow> \<not> clean_result a \<Longrightarrow> \<not> maybeExecute_call a \<Longrightarrow>
   watcher (post (step G a op)) = None"
  by (cases a)
     (auto simp: method_defs run_task_frame running_error_def
        split: option.splits sum.splits outcome.splits if_splits list.splits)

lemma stopped_run:
  "watcher op = None \<Longrightarrow> list_all (\<lambda>a. \<not> clean_result a \<and> \<not> maybeExecute_call a) as \<Longrightarrow>
   watcher (run G as op) = None"
  by (induction as arbitrary: op) (simp_all add: stopped_step)

lemma restart_cases:
  "watcher op = None \<Longrightarrow> watcher (post (step G a op)) \<noteq> None \<Longrightarrow>
   (\<exists>r v. a = ExecutorNext r \<and> res_errors r = [] \<and> execution op = Some v)
   \<or> (\<exists>vars rid res. a = MaybeExecute vars \<and> execution op = None \<and> rootID op = Some rid
         \<and> g_read G (graph op) rid (case vars of None \<Rightarrow> variables (current op) | Some v' \<Rightarrow> v')
              (data (current op)) = Inr res)"
  by (cases a)
     (auto simp: method_defs run_task_frame running_error_def
        split: option.splits sum.splits outcome.splits if_splits list.splits)

lemma maybeExecute_restarts:
  "execution op = None \<Longrightarrow> rootID op = Some rid \<Longrightarrow>
   g_read G (graph op) rid (case vars of None \<Rightarrow> variables (current op) | Some v' \<Rightarrow> v')
     (data (current op)) = Inr res \<Longrightarrow>
   watcher (post (step G (MaybeExecute vars) op)) =
     Some \<lparr>w_variables = (case vars of None \<Rightarrow> variables (current op) | Some v' \<Rightarrow> v'),
           w_initialData = Some (wr_data res)\<rparr>"
  by (auto simp: method_defs split: option.splits)

lemma clean_result_restarts:
  "execution op = Some v \<Longrightarrow> res_errors r = [] \<Longrightarrow> rootID op = Some rid \<Longrightarrow>
   g_write G (graph op) (Some rid) (res_data r) = Inr (g', d) \<Longrightarrow>
   watcher (post (step G (ExecutorNext r) op)) = Some \<lparr>w_variables = v, w_initialData = Some d\<rparr>"
  by (auto simp: method_defs split: option.splits)

section \<open>Error handling of maybeExecute, the constructor and execute\<close>

text \<open>
  Claim C1: when the graph read of \<^verbatim>\<open>maybeExecute\<close> throws a partial read error,
  \<^verbatim>\<open>maybeExecute\<close> delegates to \<^verbatim>\<open>execute(variables)\<close>, and it re-throws any other
  error. The \<^verbatim>\<open>catch\<close> clause tests \<^verbatim>\<open>if (error._partialRead) throw error\<close>, so the code
  does the opposite. On the empty example graph the read fails with a partial read
  error and \<^verbatim>\<open>maybeExecute\<close> throws that error, starting no execution; with the store
  whose read throws another error, \<^verbatim>\<open>maybeExecute\<close> swallows the error and is
  \<^verbatim>\<open>execute\<close>.
\<close>

theorem maybeExecute_catch_inverted:
  "maybeExecute example_store (Some 1) example_op =
     Throw (Error ''No scalar value found for field 'a'.'' True) example_op
   \<and> maybeExecute broken_store (Some 1) example_op = execute (Some 1) example_op
   \<and> \<not> throws (maybeExecute broken_store (Some 1) example_op)
   \<and> execution (post (maybeExecute broken_store (Some 1) example_op)) = Some 1"
  by (simp add: eval_defs)

text \<open>
  Claim C2: constructing an operation for a mutation throws
  \<^verbatim>\<open>Mutations may not be observed.\<close>. The constructor has no such check: for a mutation
  it returns an operation with no root id and no graph watcher.
\<close>

theorem constructor_accepts_mutation:
  "new_ObservableOperation g Mutation v =
     Return \<lparr>graph = g, rootID = None, observers = [], watcher = None, execution = None,
             state = (0, \<lparr>loading = False, executing = False, variables = v,
                          canonical = False, stale = False, errors = [], data = None\<rparr>),
             next_addr = 1, timers = [], delivered = []\<rparr>"
  by (simp add: new_ObservableOperation_def watch_def)

text \<open>
  Claim C3: the \<^verbatim>\<open>complete\<close> handler clears the execution handle, so that \<^verbatim>\<open>execute\<close>
  succeeds after the previous execution has completed. The handler only updates the
  state: the handle stays, and after \<^verbatim>\<open>execute(); complete\<close> the state says
  \<^verbatim>\<open>executing: false\<close> while a second \<^verbatim>\<open>execute()\<close> throws the error of a running
  execution.
\<close>

theorem execute_after_complete_throws:
  "execution (execution_complete op) = execution op
   \<and> execution (run example_store [Execute None, ExecutorComplete] example_op) = Some 0
   \<and> \<not> executing (current (run example_store [Execute None, ExecutorComplete] example_op))
   \<and> step example_store (Execute None) (run example_store [Execute None, ExecutorComplete] example_op) =
       Throw running_error (run example_store [Execute None, ExecutorComplete] example_op)"
  by (simp add: eval_defs)

section \<open>The variables of the state\<close>

text \<open>
  Claim C4, as stated, fails: after \<^verbatim>\<open>execute(7)\<close> on an operation constructed with
  variables \<open>0\<close>, the loading state has the variables \<open>0\<close>, not those of the most
  recent \<^verbatim>\<open>execute\<close> call.
\<close>

theorem loading_state_keeps_variables:
  "loading (current (run example_store [Execute (Some 7)] example_op))
   \<and> variables (current (run example_store [Execute (Some 7)] example_op)) = 0
   \<and> variables (current (run example_store [Execute (Some 7)] example_op)) \<noteq> 7"
  by (simp add: eval_defs)

text \<open>
  Claim C4, amended: the variables of the state are the initial variables after
  construction; \<^verbatim>\<open>execute(v)\<close> leaves them unchanged (so the loading state carries the
  previous variables); handling a result of the execution started by \<^verbatim>\<open>execute(v)\<close>
  sets them to \<open>v\<close>; a \<^verbatim>\<open>maybeExecute(v)\<close> whose graph read succeeds sets them to
  \<open>v\<close>; and no transition changes them otherwise.
\<close>

theorem variables_change_on_result_or_read:
  "variables (current (post (new_ObservableOperation g k v0))) = v0
   \<and> variables (current (post (execute vars op))) = variables (current op)
   \<and> (execution op = Some v \<and> \<not> throws (step G (ExecutorNext r) op) \<longrightarrow>
        variables (current (post (step G (ExecutorNext r) op))) = v)
   \<and> (execution op = None \<and> rootID op = Some rid \<and>
        g_read G (graph op) rid v (data (current op)) = Inr res \<longrightarrow>
        variables (current (post (step G (MaybeExecute (Some v)) op))) = v)
   \<and> (variables (current (post (step G a op))) \<noteq> variables (current op) \<longrightarrow>
        (\<exists>r'. a = ExecutorNext r' \<and> execution op = Some (variables (current (post (step G a op)))))
        \<or> (a = MaybeExecute (Some (variables (current (post (step G a op))))) \<and> execution op = None
            \<and> (\<exists>rid' res'. rootID op = Some rid' \<and>
                  g_read G (graph op) rid' (variables (current (post (step G a op)))) (data (current op)) = Inr res')))"
proof -
  have 1: "variables (current (post (new_ObservableOperation g k v0))) = v0"
    by (simp add: new_cases)
  have 2: "variables (current (post (execute vars op))) = variables (current op)"
    by (simp add: execute_def updateState_def spread_def no_keys_def Let_def)
  have 3: "execution op = Some v \<and> \<not> throws (step G (ExecutorNext r) op) \<longrightarrow>
        variables (current (post (step G (ExecutorNext r) op))) = v"
    by (auto simp: execution_next_def updateState_def spread_def no_keys_def Let_def watch_def
          stopWatching_def split: sum.splits option.splits)
  have 4: "execution op = None \<and> rootID op = Some rid \<and>
        g_read G (graph op) rid v (data (current op)) = Inr res \<longrightarrow>
        variables (current (post (step G (MaybeExecute (Some v)) op))) = v"
    by (auto simp: maybeExecute_def maybeExecute_try_def updateState_def spread_def no_keys_def
          Let_def watch_def stopWatching_def split: sum.splits option.splits)
  have 5: "variables (current (post (step G a op))) \<noteq> variables (current op) \<longrightarrow>
        (\<exists>r'. a = ExecutorNext r' \<and> execution op = Some (variables (current (post (step G a op)))))
        \<or> (a = MaybeExecute (Some (variables (current (post (step G a op))))) \<and> execution op = None
            \<and> (\<exists>rid' res'. rootID op = Some rid' \<and>
                  g_read G (graph op) rid' (variables (current (post (step G a op)))) (data (current op)) = Inr res'))"
    by (cases a)
       (auto simp: method_defs run_task_frame
          split: option.splits sum.splits outcome.splits if_splits list.splits)
  from 1 2 3 4 5 show ?thesis by blast
qed

text \<open>
  Claim C4, witness: \<^verbatim>\<open>execute(7)\<close> followed by a result, and a \<^verbatim>\<open>maybeExecute(9)\<close> that
  reads the graph after the execution was stopped.
\<close>

theorem variables_change_on_result_or_read_witness:
  "execution requested_op = Some 7
   \<and> \<not> throws (step example_store (ExecutorNext \<lparr>res_data = 5, res_errors = []\<rparr>) requested_op)
   \<and> variables (current requested_op) = 0
   \<and> variables (current (post (step example_store (ExecutorNext \<lparr>res_data = 5, res_errors = []\<rparr>)
        requested_op))) = 7
   \<and> execution stopped_op = None
   \<and> rootID stopped_op = Some Query
   \<and> g_read example_store (graph stopped_op) Query 9 (data (current stopped_op)) =
       Inr \<lparr>wr_data = 5, wr_stale = False\<rparr>
   \<and> variables (current stopped_op) = 7
   \<and> variables (current (post (step example_store (MaybeExecute (Some 9)) stopped_op))) = 9"
  using variables_change_on_result_or_read
          [where op = requested_op and G = example_store and v = 7
             and r = "\<lparr>res_data = 5, res_errors = []\<rparr>"
             and a = "ExecutorNext \<lparr>res_data = 5, res_errors = []\<rparr>"]
        variables_change_on_result_or_read
          [where op = stopped_op and G = example_store and v = 9 and rid = Query
             and res = "\<lparr>wr_data = 5, wr_stale = False\<rparr>" and a = "MaybeExecute (Some 9)"]
  by (simp add: eval_defs example_defs)

section \<open>Executor results with errors\<close>

text \<open>
  Claim C5, as stated, fails in its last part: the watch does not stay stopped until a
  later result without errors. On a graph that holds the data, after \<^verbatim>\<open>execute(7)\<close> and
  a result with an error the watch is stopped; \<^verbatim>\<open>stopExecuting()\<close> and \<^verbatim>\<open>maybeExecute()\<close>
  then start it again, and neither is an executor result.
\<close>

theorem watch_restarted_by_maybeExecute:
  "res_errors yikes \<noteq> []
   \<and> execution (run example_store [Execute (Some 7)] (post (new_ObservableOperation [5] Query 0))) = Some 7
   \<and> watcher (run example_store [Execute (Some 7), ExecutorNext yikes]
        (post (new_ObservableOperation [5] Query 0))) = None
   \<and> \<not> clean_result (StopExecuting :: (nat, nat) action)
   \<and> \<not> clean_result (MaybeExecute None :: (nat, nat) action)
   \<and> watcher (run example_store [Execute (Some 7), ExecutorNext yikes, StopExecuting, MaybeExecute None]
        (post (new_ObservableOperation [5] Query 0))) =
       Some \<lparr>w_variables = 7, w_initialData = Some 5\<rparr>"
  by (simp add: eval_defs example_defs)

text \<open>
  Claim C5, amended: handling an executor result whose \<^verbatim>\<open>errors\<close> are not empty
  returns, leaves the graph unchanged, sets the state to \<^verbatim>\<open>loading: false\<close>, the
  variables of the \<^verbatim>\<open>execute\<close> call, \<^verbatim>\<open>canonical: true\<close>, \<^verbatim>\<open>stale: false\<close>, the result's
  errors and the result's raw data (\<^verbatim>\<open>executing\<close> is not touched), and leaves the graph
  watch stopped. The watch then stays stopped through every run that holds neither a
  result without errors nor a call of \<^verbatim>\<open>maybeExecute\<close>; a stopped watch is started only
  by a result without errors of a registered execution or by a \<^verbatim>\<open>maybeExecute\<close> whose
  graph read succeeds while no execution is registered; and each of the two, when
  the graph write or read succeeds on an operation with a root id, does start it.
\<close>

theorem errored_result_not_written:
  assumes "res_errors r \<noteq> []" and "execution op = Some v"
  shows "step G (ExecutorNext r) op = Return (post (step G (ExecutorNext r) op))
     \<and> graph (post (step G (ExecutorNext r) op)) = graph op
     \<and> current (post (step G (ExecutorNext r) op)) =
         \<lparr>loading = False, executing = executing (current op), variables = v, canonical = True,
          stale = False, errors = res_errors r, data = Some (res_data r)\<rparr>
     \<and> watcher (post (step G (ExecutorNext r) op)) = None
     \<and> (list_all (\<lambda>a. \<not> clean_result a \<and> \<not> maybeExecute_call a) as \<longrightarrow>
          watcher (run G as (post (step G (ExecutorNext r) op))) = None)
     \<and> (watcher opa = None \<and> watcher (post (step G a opa)) \<noteq> None \<longrightarrow>
          (\<exists>r' w. a = ExecutorNext r' \<and> res_errors r' = [] \<and> execution opa = Some w)
          \<or> (\<exists>vars rid res. a = MaybeExecute vars \<and> execution opa = None \<and> rootID opa = Some rid
                \<and> g_read G (graph opa) rid
                     (case vars of None \<Rightarrow> variables (current opa) | Some v' \<Rightarrow> v')
                     (data (current opa)) = Inr res))
     \<and> (execution opb = Some vb \<and> res_errors rb = [] \<and> rootID opb = Some ridb
          \<and> g_write G (graph opb) (Some ridb) (res_data rb) = Inr (g', d) \<longrightarrow>
          watcher (post (step G (ExecutorNext rb) opb)) =
            Some \<lparr>w_variables = vb, w_initialData = Some d\<rparr>)
     \<and> (execution opc = None \<and> rootID opc = Some ridc
          \<and> g_read G (graph opc) ridc
               (case varsc of None \<Rightarrow> variables (current opc) | Some v' \<Rightarrow> v')
               (data (current opc)) = Inr resc \<longrightarrow>
          watcher (post (step G (MaybeExecute varsc) opc)) =
            Some \<lparr>w_variables = (case varsc of None \<Rightarrow> variables (current opc) | Some v' \<Rightarrow> v'),
                  w_initialData = Some (wr_data resc)\<rparr>)"
proof -
  let ?op' = "post (step G (ExecutorNext r) op)"
  have op': "?op' = updateState
                (no_keys\<lparr>p_loading := Some False, p_variables := Some v,
                   p_canonical := Some True, p_stale := Some False,
                   p_errors := Some (res_errors r), p_data := Some (res_data r)\<rparr>)
                (stopWatching op)"
    and ret: "step G (ExecutorNext r) op = Return ?op'"
    using assms by (simp_all add: execution_next_def Let_def)
  have frame: "graph ?op' = graph op" "watcher ?op' = None"
    unfolding op' by (simp_all add: updateState_frame stopWatching_def)
  have cur: "current ?op' =
         \<lparr>loading = False, executing = executing (current op), variables = v, canonical = True,
          stale = False, errors = res_errors r, data = Some (res_data r)\<rparr>"
    unfolding op' by (simp add: updateState_state spread_def no_keys_def stopWatching_def)
  have stay: "list_all (\<lambda>a. \<not> clean_result a \<and> \<not> maybeExecute_call a) as \<longrightarrow>
      watcher (run G as ?op') = None"
    using stopped_run [OF frame(2)] by blast
  have only: "watcher opa = None \<and> watcher (post (step G a opa)) \<noteq> None \<longrightarrow>
          (\<exists>r' w. a = ExecutorNext r' \<and> res_errors r' = [] \<and> execution opa = Some w)
          \<or> (\<exists>vars rid res. a = MaybeExecute vars \<and> execution opa = None \<and> rootID opa = Some rid
                \<and> g_read G (graph opa) rid
                     (case vars of None \<Rightarrow> variables (current opa) | Some v' \<Rightarrow> v')
                     (data (current opa)) = Inr res)"
    using restart_cases [of opa G a] by blast
  have clean: "execution opb = Some vb \<and> res_errors rb = [] \<and> rootID opb = Some ridb
          \<and> g_write G (graph opb) (Some ridb) (res_data rb) = Inr (g', d) \<longrightarrow>
          watcher (post (step G (ExecutorNext rb) opb)) =
            Some \<lparr>w_variables = vb, w_initialData = Some d\<rparr>"
    using clean_result_restarts [of opb vb rb ridb G g' d] by blast
  have reads: "execution opc = None \<and> rootID opc = Some ridc
          \<and> g_read G (graph opc) ridc
               (case varsc of None \<Rightarrow> variables (current opc) | Some v' \<Rightarrow> v')
               (data (current opc)) = Inr resc \<longrightarrow>
          watcher (post (step G (MaybeExecute varsc) opc)) =
            Some \<lparr>w_variables = (case varsc of None \<Rightarrow> variables (current opc) | Some v' \<Rightarrow> v'),
                  w_initialData = Some (wr_data resc)\<rparr>"
    using maybeExecute_restarts [of opc ridc G varsc resc] by blast
  from ret frame cur stay only clean reads show ?thesis by blast
qed

text \<open>
  Claim C5, witness: the result \<^verbatim>\<open>{ data: 5, errors: [{ message: 'Yikes!' }] }\<close> after
  \<^verbatim>\<open>execute(7)\<close> on a graph that holds \<open>5\<close>; a run with an executor error, results
  with errors, the completion, a watch emission, \<^verbatim>\<open>stopExecuting()\<close> and a new
  \<^verbatim>\<open>execute(8)\<close> leaves the watch stopped; \<^verbatim>\<open>stopExecuting(); maybeExecute()\<close> starts it,
  and so does the result \<^verbatim>\<open>{ data: 6, errors: [] }\<close>.
\<close>

theorem errored_result_not_written_witness:
  "res_errors yikes \<noteq> []
   \<and> execution (run example_store [Execute (Some 7)] seeded_op) = Some 7
   \<and> step example_store (ExecutorNext yikes) (run example_store [Execute (Some 7)] seeded_op) =
       Return errored_op
   \<and> graph errored_op = [5]
   \<and> current errored_op =
       \<lparr>loading = False, executing = True, variables = 7, canonical = True, stale = False,
        errors = res_errors yikes, data = Some 5\<rparr>
   \<and> watcher errored_op = None
   \<and> list_all (\<lambda>a. \<not> clean_result a \<and> \<not> maybeExecute_call a)
        [ExecutorError (Error ''error 1'' False), ExecutorNext yikes, ExecutorComplete,
         WatchNext \<lparr>wr_data = 1, wr_stale = False\<rparr>, StopExecuting, Execute (Some 8),
         ExecutorNext yikes]
   \<and> watcher (run example_store
        [ExecutorError (Error ''error 1'' False), ExecutorNext yikes, ExecutorComplete,
         WatchNext \<lparr>wr_data = 1, wr_stale = False\<rparr>, StopExecuting, Execute (Some 8),
         ExecutorNext yikes] errored_op) = None
   \<and> watcher (run example_store [StopExecuting] errored_op) = None
   \<and> execution (run example_store [StopExecuting] errored_op) = None
   \<and> rootID (run example_store [StopExecuting] errored_op) = Some Query
   \<and> g_read example_store (graph (run example_store [StopExecuting] errored_op)) Query 7
        (data (current (run example_store [StopExecuting] errored_op))) =
       Inr \<lparr>wr_data = 5, wr_stale = False\<rparr>
   \<and> watcher (post (step example_store (MaybeExecute None) (run example_store [StopExecuting] errored_op))) =
       Some \<lparr>w_variables = 7, w_initialData = Some 5\<rparr>
   \<and> execution errored_op = Some 7
   \<and> rootID errored_op = Some Query
   \<and> g_write example_store (graph errored_op) (Some Query) 6 = Inr ([5, 6], 6)
   \<and> watcher (post (step example_store (ExecutorNext \<lparr>res_data = 6, res_errors = []\<rparr>) errored_op)) =
       Some \<lparr>w_variables = 7, w_initialData = Some 6\<rparr>"
  using errored_result_not_written
          [where r = yikes and op = "run example_store [Execute (Some 7)] seeded_op" and v = 7
             and G = example_store
             and as = "[ExecutorError (Error ''error 1'' False), ExecutorNext yikes, ExecutorComplete,
                        WatchNext \<lparr>wr_data = 1, wr_stale = False\<rparr>, StopExecuting, Execute (Some 8),
                        ExecutorNext yikes]"
             and opa = "run example_store [StopExecuting] errored_op" and a = "MaybeExecute None"
             and opb = errored_op and rb = "\<lparr>res_data = 6, res_errors = []\<rparr>" and vb = 7
             and ridb = Query and g' = "[5, 6]" and d = 6
             and opc = "run example_store [StopExecuting] errored_op" and varsc = None
             and ridc = Query and resc = "\<lparr>wr_data = 5, wr_stale = False\<rparr>"]
  by (simp add: eval_defs example_defs)

section \<open>The loading and executing flags\<close>

text \<open>
  Claim C6: in every reachable state of an operation, \<^verbatim>\<open>executing = false\<close> implies
  \<^verbatim>\<open>loading = false\<close>, for the current state and for every state an observer has
  received; every transition that sets \<^verbatim>\<open>executing\<close> to false leaves \<^verbatim>\<open>loading\<close> false,
  and every transition that sets \<^verbatim>\<open>loading\<close> to true leaves \<^verbatim>\<open>executing\<close> true.
\<close>

theorem executing_false_implies_loading_false:
  assumes "reachable G op"
  shows "(\<not> executing (current op) \<longrightarrow> \<not> loading (current op))
     \<and> (\<forall>observer s. (observer, Next s) \<in> set (delivered op) \<longrightarrow> \<not> executing (snd s) \<longrightarrow> \<not> loading (snd s))
     \<and> (executing (current op) \<and> \<not> executing (current (post (step G a op))) \<longrightarrow>
          \<not> loading (current (post (step G a op))))
     \<and> (\<not> loading (current op) \<and> loading (current (post (step G a op))) \<longrightarrow>
          executing (current (post (step G a op))))"
proof -
  have inv: "all_flags_ok op"
    using assms by (rule reachable_all_flags_ok)
  then have 1: "\<not> executing (current op) \<longrightarrow> \<not> loading (current op)"
    by (simp add: all_flags_ok_def flags_ok_def split: if_splits)
  have 2: "\<forall>observer s. (observer, Next s) \<in> set (delivered op) \<longrightarrow> \<not> executing (snd s) \<longrightarrow> \<not> loading (snd s)"
    using inv by (fastforce simp: all_flags_ok_def list_all_iff flags_ok_delivery_def flags_ok_def split: if_splits)
  have 3: "executing (current op) \<and> \<not> executing (current (post (step G a op))) \<longrightarrow>
          \<not> loading (current (post (step G a op)))"
    by (cases a)
       (auto simp: method_defs run_task_frame
          split: option.splits sum.splits outcome.splits if_splits list.splits)
  have 4: "\<not> loading (current op) \<and> loading (current (post (step G a op))) \<longrightarrow>
          executing (current (post (step G a op)))"
    by (cases a)
       (auto simp: method_defs run_task_frame
          split: option.splits sum.splits outcome.splits if_splits list.splits)
  from 1 2 3 4 show ?thesis by blast
qed

text \<open>
  Claim C6, witness: a subscribed operation before \<^verbatim>\<open>execute()\<close>, and an executing
  operation that completes.
\<close>

theorem executing_false_implies_loading_false_witness:
  "reachable example_store subscribed_op
   \<and> \<not> executing (current subscribed_op) \<and> \<not> loading (current subscribed_op)
   \<and> (example_observer, Next (state subscribed_op)) \<in> set (delivered subscribed_op)
   \<and> loading (current (post (step example_store (Execute None) subscribed_op)))
   \<and> executing (current (post (step example_store (Execute None) subscribed_op)))
   \<and> reachable example_store executing_op
   \<and> executing (current executing_op)
   \<and> \<not> executing (current (post (step example_store ExecutorComplete executing_op)))
   \<and> \<not> loading (current (post (step example_store ExecutorComplete executing_op)))"
proof -
  have 1: "\<not> executing (current subscribed_op) \<and> \<not> loading (current subscribed_op)
   \<and> (example_observer, Next (state subscribed_op)) \<in> set (delivered subscribed_op)
   \<and> loading (current (post (step example_store (Execute None) subscribed_op)))
   \<and> executing (current (post (step example_store (Execute None) subscribed_op)))"
    using executing_false_implies_loading_false
            [OF reachable_examples(2), where a = "Execute None"]
    by (simp add: eval_defs example_defs)
  have 2: "executing (current executing_op)
   \<and> \<not> executing (current (post (step example_store ExecutorComplete executing_op)))
   \<and> \<not> loading (current (post (step example_store ExecutorComplete executing_op)))"
    using executing_false_implies_loading_false
            [OF reachable_examples(4), where a = ExecutorComplete]
    by (simp add: eval_defs example_defs)
  from 1 2 reachable_examples(2,4) show ?thesis by blast
qed

section \<open>State updates and their deferred delivery\<close>



section \<open>Graph watch emissions\<close>

text \<open>
  Claim C8: for an emission of the active graph watch, if the emitted data is the
  \<^verbatim>\<open>initialData\<close> the watch was started with and the emission is not stale, nothing
  happens; otherwise the state is updated to \<^verbatim>\<open>canonical: false\<close>, the emission's
  \<^verbatim>\<open>stale\<close> flag and the emitted data. (The handler's check that the variables did not
  change never fails in a reachable state.) \<^verbatim>\<open>_watch\<close> captures the data of the state
  current when the watch is started.
\<close>

theorem watch_emission_suppressed_or_applied:
  assumes "reachable G op" and "watcher op = Some w"
  shows "step G (WatchNext r) op =
           (if Some (wr_data r) = w_initialData w \<and> wr_stale r = False then Return op
            else Return (updateState
                           (no_keys\<lparr>p_canonical := Some False, p_stale := Some (wr_stale r),
                              p_data := Some (wr_data r)\<rparr>) op))
     \<and> current (updateState
                  (no_keys\<lparr>p_canonical := Some False, p_stale := Some (wr_stale r),
                     p_data := Some (wr_data r)\<rparr>) op) =
         (current op)\<lparr>canonical := False, stale := wr_stale r, data := Some (wr_data r)\<rparr>
     \<and> (rootID op' \<noteq> None \<and> watcher op' = None \<longrightarrow>
          watch op' = Return (op'\<lparr>watcher :=
            Some \<lparr>w_variables = variables (current op'), w_initialData = data (current op')\<rparr>\<rparr>))"
proof -
  have "watcher_ok op"
    using assms(1) by (rule reachable_watcher_ok)
  then have same: "w_variables w = variables (current op)"
    using assms(2) by (simp add: watcher_ok_def)
  have 1: "step G (WatchNext r) op =
           (if Some (wr_data r) = w_initialData w \<and> wr_stale r = False then Return op
            else Return (updateState
                           (no_keys\<lparr>p_canonical := Some False, p_stale := Some (wr_stale r),
                              p_data := Some (wr_data r)\<rparr>) op))"
    using assms(2) same by (simp add: watch_next_def)
  have 2: "current (updateState
                  (no_keys\<lparr>p_canonical := Some False, p_stale := Some (wr_stale r),
                     p_data := Some (wr_data r)\<rparr>) op) =
         (current op)\<lparr>canonical := False, stale := wr_stale r, data := Some (wr_data r)\<rparr>"
    by (simp add: updateState_state spread_def no_keys_def)
  have 3: "rootID op' \<noteq> None \<and> watcher op' = None \<longrightarrow>
          watch op' = Return (op'\<lparr>watcher :=
            Some \<lparr>w_variables = variables (current op'), w_initialData = data (current op')\<rparr>\<rparr>)"
    by (auto simp: watch_def)
  from 1 2 3 show ?thesis by blast
qed

text \<open>
  Claim C8, witness: after \<^verbatim>\<open>execute(7)\<close> and the result \<^verbatim>\<open>{ data: 5, errors: [] }\<close> the
  watch has the initial data \<open>5\<close>; an emission of \<open>5\<close>, not stale, is suppressed, an
  emission of \<open>6\<close>, stale, is applied.
\<close>

theorem watch_emission_suppressed_or_applied_witness:
  "reachable example_store watching_op
   \<and> watcher watching_op = Some \<lparr>w_variables = 7, w_initialData = Some 5\<rparr>
   \<and> step example_store (WatchNext \<lparr>wr_data = 5, wr_stale = False\<rparr>) watching_op = Return watching_op
   \<and> current (post (step example_store (WatchNext \<lparr>wr_data = 6, wr_stale = True\<rparr>) watching_op)) =
       \<lparr>loading = False, executing = True, variables = 7, canonical = False, stale = True,
        errors = [], data = Some 6\<rparr>
   \<and> rootID (stopWatching watching_op) \<noteq> None
   \<and> watcher (stopWatching watching_op) = None
   \<and> watcher (post (watch (stopWatching watching_op))) =
       Some \<lparr>w_variables = 7, w_initialData = Some 5\<rparr>"
proof -
  have w: "watcher watching_op = Some \<lparr>w_variables = 7, w_initialData = Some 5\<rparr>"
    by (simp add: eval_defs example_defs)
  have 1: "step example_store (WatchNext \<lparr>wr_data = 5, wr_stale = False\<rparr>) watching_op = Return watching_op
   \<and> rootID (stopWatching watching_op) \<noteq> None
   \<and> watcher (stopWatching watching_op) = None
   \<and> watcher (post (watch (stopWatching watching_op))) =
       Some \<lparr>w_variables = 7, w_initialData = Some 5\<rparr>"
    using watch_emission_suppressed_or_applied
            [OF reachable_examples(5) w, where r = "\<lparr>wr_data = 5, wr_stale = False\<rparr>"
               and op' = "stopWatching watching_op"]
    by (simp add: eval_defs example_defs)
  have 2: "current (post (step example_store (WatchNext \<lparr>wr_data = 6, wr_stale = True\<rparr>) watching_op)) =
       \<lparr>loading = False, executing = True, variables = 7, canonical = False, stale = True,
        errors = [], data = Some 6\<rparr>"
    using watch_emission_suppressed_or_applied
            [OF reachable_examples(5) w, where r = "\<lparr>wr_data = 6, wr_stale = True\<rparr>"]
    by (simp add: eval_defs example_defs)
  from w 1 2 reachable_examples(5) show ?thesis by blast
qed

section \<open>Executor errors\<close>



section \<open>Subscribing\<close>

text \<open>
  Claim C10: \<^verbatim>\<open>_onSubscribe\<close> schedules exactly one priming delivery and registers the
  observer; the priming delivery hands over the state that is current when it runs;
  so if \<^verbatim>\<open>_updateState\<close> runs after the subscription and before the priming delivery,
  the new state object differs from the one current at subscription, the priming
  delivery carries the new one, and the observer receives the same state object
  again from the update's own delivery.
\<close>

theorem subscribe_primes_with_state_at_delivery:
  assumes "reachable G op"
  shows "timers (onSubscribe observer op) = timers op @ [Prime observer]
     \<and> observers (onSubscribe observer op) = observers op @ [observer]
     \<and> state (onSubscribe observer op) = state op
     \<and> delivered (run_task (Prime observer) op') =
         (if has_next observer then delivered op' @ [(observer, Next (state op'))] else delivered op')
     \<and> state (updateState p (onSubscribe observer op)) \<noteq> state op
     \<and> (has_next observer \<and> timers op = [] \<longrightarrow>
          delivered (flush (updateState p (onSubscribe observer op))) =
            delivered op
            @ [(observer, Next (state (updateState p (onSubscribe observer op))))]
            @ map (\<lambda>observer'. (observer', Next (state (updateState p (onSubscribe observer op)))))
                (filter has_next (observers op))
            @ [(observer, Next (state (updateState p (onSubscribe observer op))))])"
proof -
  let ?sub = "onSubscribe observer op"
  let ?s = "state (updateState p ?sub)"
  have "addr_ok op"
    using assms by (rule reachable_addr_ok)
  then have "fst (state op) < next_addr op"
    by (simp add: addr_ok_def)
  moreover have "fst ?s = next_addr op"
    by (simp add: updateState_state onSubscribe_def)
  ultimately have 5: "?s \<noteq> state op"
    by (metis less_irrefl)
  have 4: "delivered (run_task (Prime observer) op') =
         (if has_next observer then delivered op' @ [(observer, Next (state op'))] else delivered op')"
    by (simp add: deliver_def)
  have 6: "has_next observer \<and> timers op = [] \<longrightarrow>
          delivered (flush (updateState p ?sub)) =
            delivered op @ [(observer, Next ?s)]
            @ map (\<lambda>observer'. (observer', Next ?s)) (filter has_next (observers op))
            @ [(observer, Next ?s)]"
  proof
    assume h: "has_next observer \<and> timers op = []"
    have "timers (updateState p ?sub) =
        [Prime observer] @ map (\<lambda>observer'. DeliverState observer' ?s) (observers op @ [observer])"
      using h by (simp add: updateState_timers onSubscribe_def)
    then have "concat (map (task_output ?s) (timers (updateState p ?sub))) =
        concat (map (task_output ?s) [Prime observer])
        @ concat (map (task_output ?s) (map (\<lambda>observer'. DeliverState observer' ?s) (observers op @ [observer])))"
      by (simp only: map_append concat_append)
    then have "concat (map (task_output ?s) (timers (updateState p ?sub))) =
        [(observer, Next ?s)]
        @ map (\<lambda>observer'. (observer', Next ?s)) (filter has_next (observers op @ [observer]))"
      using h by (simp only: output_new) simp
    then show "delivered (flush (updateState p ?sub)) =
            delivered op @ [(observer, Next ?s)]
            @ map (\<lambda>observer'. (observer', Next ?s)) (filter has_next (observers op))
            @ [(observer, Next ?s)]"
      using h by (simp add: flush_delivered updateState_frame onSubscribe_def del: map_map)
  qed
  have 123: "timers ?sub = timers op @ [Prime observer]" "observers ?sub = observers op @ [observer]"
      "state ?sub = state op"
    by (simp_all add: onSubscribe_def)
  from 123 4 5 6 show ?thesis by blast
qed

text \<open>
  Claim C10, witness: an observer subscribes to the example operation and
  \<^verbatim>\<open>execute()\<close> is called in the same turn.
\<close>

theorem subscribe_primes_with_state_at_delivery_witness:
  "reachable example_store example_op
   \<and> has_next example_observer
   \<and> timers example_op = []
   \<and> state (run example_store [Subscribe example_observer, Execute None] example_op) \<noteq> state example_op
   \<and> delivered (flush (run example_store [Subscribe example_observer, Execute None] example_op)) =
       [(example_observer, Next (state (run example_store [Subscribe example_observer, Execute None] example_op))),
        (example_observer, Next (state (run example_store [Subscribe example_observer, Execute None] example_op)))]"
proof -
  have 1: "has_next example_observer
   \<and> timers example_op = []
   \<and> state (run example_store [Subscribe example_observer, Execute None] example_op) \<noteq> state example_op
   \<and> delivered (flush (run example_store [Subscribe example_observer, Execute None] example_op)) =
       [(example_observer, Next (state (run example_store [Subscribe example_observer, Execute None] example_op))),
        (example_observer, Next (state (run example_store [Subscribe example_observer, Execute None] example_op)))]"
    using subscribe_primes_with_state_at_delivery
            [OF reachable_examples(1), where observer = example_observer
               and p = "no_keys\<lparr>p_loading := Some True, p_executing := Some True\<rparr>"]
    by (simp add: eval_defs example_defs)
  from 1 reachable_examples(1) show ?thesis by blast
qed

end
